theory Spec2Isabelle
  imports Main
begin

section \<open>JavaScript strings\<close>

text \<open>
  A JavaScript string is a sequence of UTF-16 code units. A code unit is modelled as a
  natural number, a string as a list of them; \<open>js\<close> turns an ASCII literal into such a
  string.
\<close>

type_synonym jschar = nat
type_synonym jsstring = "jschar list"

definition js :: "string \<Rightarrow> jsstring" where
  "js s = map of_char s"

abbreviation TAB :: jschar where "TAB \<equiv> 9"
abbreviation LF :: jschar where "LF \<equiv> 10"
abbreviation CR :: jschar where "CR \<equiv> 13"
abbreviation SPACE :: jschar where "SPACE \<equiv> 32"
abbreviation DQUOTE :: jschar where "DQUOTE \<equiv> 34"
abbreviation SQUOTE :: jschar where "SQUOTE \<equiv> 39"
abbreviation RPAREN :: jschar where "RPAREN \<equiv> 41"
abbreviation COMMA :: jschar where "COMMA \<equiv> 44"
abbreviation MINUS :: jschar where "MINUS \<equiv> 45"
abbreviation DOT :: jschar where "DOT \<equiv> 46"
abbreviation COLON :: jschar where "COLON \<equiv> 58"
abbreviation LBRACKET :: jschar where "LBRACKET \<equiv> 91"
abbreviation BACKSLASH :: jschar where "BACKSLASH \<equiv> 92"
abbreviation RBRACKET :: jschar where "RBRACKET \<equiv> 93"
abbreviation LBRACE :: jschar where "LBRACE \<equiv> 123"
abbreviation RBRACE :: jschar where "RBRACE \<equiv> 125"

text \<open>
  The regular-expression class \<open>\s\<close> and \<open>String.prototype.trim\<close> use the same set:
  WhiteSpace and LineTerminator of ECMAScript (TAB, LF, VT, FF, CR, SPACE, NBSP,
  U+1680, U+2000..U+200A, U+2028, U+2029, U+202F, U+205F, U+3000, U+FEFF).
\<close>

definition is_space :: "jschar \<Rightarrow> bool" where
  "is_space c \<longleftrightarrow>
     (9 \<le> c \<and> c \<le> 13) \<or> c = 32 \<or> c = 160 \<or> c = 5760 \<or> (8192 \<le> c \<and> c \<le> 8202) \<or>
     c = 8232 \<or> c = 8233 \<or> c = 8239 \<or> c = 8287 \<or> c = 12288 \<or> c = 65279"

text \<open>The class \<open>\d\<close>: the ASCII digits.\<close>

definition is_digit :: "jschar \<Rightarrow> bool" where
  "is_digit c \<longleftrightarrow> 48 \<le> c \<and> c \<le> 57"

text \<open>
  \<open>s.replace(/^[C]+|[C]+$/g, "")\<close> for a character class \<open>C\<close>: the first alternative
  matches, at index 0 only, the longest run of class characters; the second matches a run
  of class characters that reaches the end of the string, and the leftmost such match
  starts where the trailing run starts. Both runs are removed.
\<close>

definition strip_leading :: "(jschar \<Rightarrow> bool) \<Rightarrow> jsstring \<Rightarrow> jsstring" where
  "strip_leading C s = dropWhile C s"

definition strip_trailing :: "(jschar \<Rightarrow> bool) \<Rightarrow> jsstring \<Rightarrow> jsstring" where
  "strip_trailing C s = rev (dropWhile C (rev s))"

definition strip_both :: "(jschar \<Rightarrow> bool) \<Rightarrow> jsstring \<Rightarrow> jsstring" where
  "strip_both C s = strip_trailing C (strip_leading C s)"

text \<open>\<open>String.prototype.trim\<close>.\<close>

definition trim :: "jsstring \<Rightarrow> jsstring" where
  "trim s = strip_both is_space s"

section \<open>JavaScript values\<close>

text \<open>
  The values the handler works on are plain data: what \<open>JSON.parse\<close> builds, what a
  request body holds and what the collaborators return. A Number is represented by its
  \<open>ToString\<close> rendering (\<open>1\<close>, \<open>0.5\<close>, \<open>1e+21\<close>, \<open>NaN\<close>), so no floating-point
  arithmetic is needed; an object is the list of its own properties, with distinct keys,
  in the order in which they are enumerated.
\<close>

datatype jsval =
    JUndefined
  | JNull
  | JBool bool
  | JNum jsstring
  | JStr jsstring
  | JArr "jsval list"
  | JObj "(jsstring \<times> jsval) list"

text \<open>
  What a \<open>throw\<close> carries: a TypeError of the runtime with its message, or another
  error (thrown by a collaborator) with its name and message.
\<close>

datatype exn =
    TypeError jsstring
  | Failure jsstring jsstring

text \<open>
  \<open>String(error)\<close> (\<open>Error.prototype.toString\<close>): the name alone when the message is
  empty, the message alone when the name is empty, else name, colon, space, message.
\<close>

definition error_toString :: "jsstring \<Rightarrow> jsstring \<Rightarrow> jsstring" where
  "error_toString name msg =
     (if name = [] then msg else if msg = [] then name else name @ js '': '' @ msg)"

fun exn_to_String :: "exn \<Rightarrow> jsstring" where
  "exn_to_String (TypeError m) = error_toString (js ''TypeError'') m"
| "exn_to_String (Failure n m) = error_toString n m"

text \<open>Truthiness (\<open>ToBoolean\<close>).\<close>

fun truthy :: "jsval \<Rightarrow> bool" where
  "truthy JUndefined = False"
| "truthy JNull = False"
| "truthy (JBool b) = b"
| "truthy (JNum r) = (r \<noteq> js ''0'' \<and> r \<noteq> js ''NaN'')"
| "truthy (JStr s) = (s \<noteq> [])"
| "truthy (JArr _) = True"
| "truthy (JObj _) = True"

fun is_array :: "jsval \<Rightarrow> bool" where
  "is_array (JArr _) = True"
| "is_array _ = False"

text \<open>
  Reading a property \<open>v.k\<close> of a value that is neither \<open>null\<close> nor \<open>undefined\<close>. The
  handler reads only the keys \<open>type\<close>, \<open>role\<close>, \<open>level\<close>, \<open>techstack\<close>, \<open>amount\<close>,
  \<open>userid\<close>, \<open>text\<close>, \<open>output\<close>, \<open>content\<close> and \<open>questions\<close>, none of which is a
  built-in property of arrays, strings, numbers or booleans: on those the result is
  \<open>undefined\<close>.
\<close>

fun get_prop :: "jsval \<Rightarrow> jsstring \<Rightarrow> jsval" where
  "get_prop (JObj kvs) k = (case map_of kvs k of Some v \<Rightarrow> v | None \<Rightarrow> JUndefined)"
| "get_prop _ k = JUndefined"

text \<open>\<open>k in v\<close> for an object or array \<open>v\<close> and one of the keys above.\<close>

fun has_prop :: "jsval \<Rightarrow> jsstring \<Rightarrow> bool" where
  "has_prop (JObj kvs) k = (k \<in> fst ` set kvs)"
| "has_prop _ k = False"

text \<open>\<open>a[0]\<close> for an array \<open>a\<close>: \<open>undefined\<close> when the array is empty.\<close>

fun first_elem :: "jsval list \<Rightarrow> jsval" where
  "first_elem [] = JUndefined"
| "first_elem (x # _) = x"

text \<open>\<open>v?.k\<close>: \<open>undefined\<close> when \<open>v\<close> is \<open>null\<close> or \<open>undefined\<close>.\<close>

fun opt_prop :: "jsval \<Rightarrow> jsstring \<Rightarrow> jsval" where
  "opt_prop JUndefined k = JUndefined"
| "opt_prop JNull k = JUndefined"
| "opt_prop v k = get_prop v k"

text \<open>
  \<open>String(v)\<close> and template interpolation (\<open>ToString\<close>). An array is joined with commas,
  \<open>null\<close> and \<open>undefined\<close> elements giving the empty string. A plain object gives
  \<open>[object Object]\<close>, unless it has an own property \<open>toString\<close>: a data property is not
  callable, the inherited \<open>valueOf\<close> returns the object itself, and the conversion
  throws a TypeError (\<open>None\<close>).
\<close>

fun join_commas :: "jsstring list \<Rightarrow> jsstring" where
  "join_commas [] = []"
| "join_commas [s] = s"
| "join_commas (s # t # ss) = s @ COMMA # join_commas (t # ss)"

fun sequence :: "'a option list \<Rightarrow> 'a list option" where
  "sequence [] = Some []"
| "sequence (None # _) = None"
| "sequence (Some x # xs) = (case sequence xs of None \<Rightarrow> None | Some ys \<Rightarrow> Some (x # ys))"

fun to_String :: "jsval \<Rightarrow> jsstring option"
  and elem_to_String :: "jsval \<Rightarrow> jsstring option" where
  "to_String JUndefined = Some (js ''undefined'')"
| "to_String JNull = Some (js ''null'')"
| "to_String (JBool b) = Some (if b then js ''true'' else js ''false'')"
| "to_String (JNum r) = Some r"
| "to_String (JStr s) = Some s"
| "to_String (JArr vs) = map_option join_commas (sequence (map elem_to_String vs))"
| "to_String (JObj kvs) =
     (if js ''toString'' \<in> fst ` set kvs then None else Some (js ''[object Object]''))"
| "elem_to_String JUndefined = Some []"
| "elem_to_String JNull = Some []"
| "elem_to_String v = to_String v"

section \<open>\<open>JSON.parse\<close>\<close>

text \<open>
  \<open>JSON.parse\<close> follows the JSON grammar of ECMAScript: a lexical pass producing tokens,
  then the syntactic grammar of values, arrays and objects, here run as a pushdown
  automaton over the tokens. Any violation is a \<open>SyntaxError\<close> (\<open>None\<close>).
\<close>

datatype token =
    TLBracket | TRBracket | TLBrace | TRBrace | TComma | TColon
  | TString jsstring
  | TNumber jsstring
  | TTrue | TFalse | TNull

text \<open>JSONWhiteSpace: TAB, LF, CR, SPACE.\<close>

definition is_json_ws :: "jschar \<Rightarrow> bool" where
  "is_json_ws c \<longleftrightarrow> c = TAB \<or> c = LF \<or> c = CR \<or> c = SPACE"

definition hex_val :: "jschar \<Rightarrow> nat option" where
  "hex_val c =
     (if 48 \<le> c \<and> c \<le> 57 then Some (c - 48)
      else if 65 \<le> c \<and> c \<le> 70 then Some (c - 55)
      else if 97 \<le> c \<and> c \<le> 102 then Some (c - 87)
      else None)"

definition hex4 :: "jschar \<Rightarrow> jschar \<Rightarrow> jschar \<Rightarrow> jschar \<Rightarrow> jschar option" where
  "hex4 a b c d =
     (case (hex_val a, hex_val b, hex_val c, hex_val d) of
        (Some w, Some x, Some y, Some z) \<Rightarrow> Some (((w * 16 + x) * 16 + y) * 16 + z)
      | _ \<Rightarrow> None)"

text \<open>The single-character escapes: \<open>" / \ b f n r t\<close>.\<close>

definition unescape :: "jschar \<Rightarrow> jschar option" where
  "unescape e =
     (if e = DQUOTE then Some DQUOTE
      else if e = 47 then Some 47
      else if e = BACKSLASH then Some BACKSLASH
      else if e = 98 then Some 8
      else if e = 102 then Some 12
      else if e = 110 then Some LF
      else if e = 114 then Some CR
      else if e = 116 then Some TAB
      else None)"

text \<open>
  The rest of a string literal after its opening quote: the decoded string and the input
  after the closing quote. Code units below U+0020 must be escaped.
\<close>

fun lex_string :: "jsstring \<Rightarrow> (jsstring \<times> jsstring) option" where
  "lex_string [] = None"
| "lex_string (c # cs) =
     (if c = DQUOTE then Some ([], cs)
      else if c = BACKSLASH then
        (case cs of
           [] \<Rightarrow> None
         | e # cs1 \<Rightarrow>
             if e = 117 then
               (case cs1 of
                  h1 # h2 # h3 # h4 # cs2 \<Rightarrow>
                    (case hex4 h1 h2 h3 h4 of
                       None \<Rightarrow> None
                     | Some u \<Rightarrow> map_option (\<lambda>(s, r). (u # s, r)) (lex_string cs2))
                | _ \<Rightarrow> None)
             else
               (case unescape e of
                  None \<Rightarrow> None
                | Some x \<Rightarrow> map_option (\<lambda>(s, r). (x # s, r)) (lex_string cs1)))
      else if c < 32 then None
      else map_option (\<lambda>(s, r). (c # s, r)) (lex_string cs))"

text \<open>
  A number literal: \<open>-? (0 | [1-9][0-9]*) (. [0-9]+)? ([eE] [+-]? [0-9]+)?\<close>. Each part
  returns the text it consumed and the rest.
\<close>

definition lex_digits :: "jsstring \<Rightarrow> (jsstring \<times> jsstring) option" where
  "lex_digits s =
     (if takeWhile is_digit s = [] then None
      else Some (takeWhile is_digit s, dropWhile is_digit s))"

definition lex_sign :: "jsstring \<Rightarrow> jsstring \<times> jsstring" where
  "lex_sign s = (case s of c # r \<Rightarrow> if c = MINUS then ([c], r) else ([], s) | [] \<Rightarrow> ([], s))"

definition lex_int :: "jsstring \<Rightarrow> (jsstring \<times> jsstring) option" where
  "lex_int s =
     (case s of
        [] \<Rightarrow> None
      | d # r \<Rightarrow>
          if d = 48 then Some ([d], r)
          else if is_digit d then Some (d # takeWhile is_digit r, dropWhile is_digit r)
          else None)"

definition lex_frac :: "jsstring \<Rightarrow> (jsstring \<times> jsstring) option" where
  "lex_frac s =
     (case s of
        c # r \<Rightarrow>
          if c = DOT then map_option (\<lambda>(ds, r1). (c # ds, r1)) (lex_digits r)
          else Some ([], s)
      | [] \<Rightarrow> Some ([], s))"

definition lex_exp_sign :: "jsstring \<Rightarrow> jsstring \<times> jsstring" where
  "lex_exp_sign s =
     (case s of c # r \<Rightarrow> if c = 43 \<or> c = MINUS then ([c], r) else ([], s) | [] \<Rightarrow> ([], s))"

definition lex_exp :: "jsstring \<Rightarrow> (jsstring \<times> jsstring) option" where
  "lex_exp s =
     (case s of
        c # r \<Rightarrow>
          if c = 101 \<or> c = 69 then
            (case lex_exp_sign r of
               (sg, r1) \<Rightarrow> map_option (\<lambda>(ds, r2). (c # sg @ ds, r2)) (lex_digits r1))
          else Some ([], s)
      | [] \<Rightarrow> Some ([], s))"

definition lex_number :: "jsstring \<Rightarrow> (jsstring \<times> jsstring) option" where
  "lex_number s =
     (case lex_sign s of
        (sg, s1) \<Rightarrow>
          (case lex_int s1 of
             None \<Rightarrow> None
           | Some (ip, s2) \<Rightarrow>
               (case lex_frac s2 of
                  None \<Rightarrow> None
                | Some (fp, s3) \<Rightarrow>
                    (case lex_exp s3 of
                       None \<Rightarrow> None
                     | Some (ep, s4) \<Rightarrow> Some (sg @ ip @ fp @ ep, s4)))))"

lemma lex_string_length:
  "lex_string cs = Some (s, r) \<Longrightarrow> length r \<le> length cs"
proof (induction cs arbitrary: s r rule: lex_string.induct)
  case 1
  then show ?case by simp
next
  case (2 c cs)
  show ?case
    using "2.prems" "2.IH"
    by (fastforce split: if_splits list.splits option.splits)
qed

lemma lex_digits_length:
  "lex_digits s = Some (ds, r) \<Longrightarrow> length r \<le> length s"
  by (auto simp: lex_digits_def length_dropWhile_le split: if_splits)

lemma lex_int_length:
  "lex_int s = Some (ds, r) \<Longrightarrow> length r < length s"
  by (auto simp: lex_int_def less_Suc_eq_le length_dropWhile_le split: list.splits if_splits)

lemma lex_frac_length:
  "lex_frac s = Some (ds, r) \<Longrightarrow> length r \<le> length s"
  by (auto simp: lex_frac_def split: list.splits if_splits dest!: lex_digits_length)

lemma lex_exp_length:
  "lex_exp s = Some (ds, r) \<Longrightarrow> length r \<le> length s"
  by (auto simp: lex_exp_def lex_exp_sign_def split: list.splits if_splits
      dest!: lex_digits_length)

lemma lex_sign_length:
  "lex_sign s = (sg, r) \<Longrightarrow> length r \<le> length s"
  by (auto simp: lex_sign_def split: list.splits if_splits)

lemma lex_number_length:
  assumes "lex_number s = Some (n, r)"
  shows "length r < length s"
proof -
  from assms obtain sg s1 ip s2 fp s3 ep where
    a: "lex_sign s = (sg, s1)" and b: "lex_int s1 = Some (ip, s2)" and
    c: "lex_frac s2 = Some (fp, s3)" and d: "lex_exp s3 = Some (ep, r)"
    by (auto simp: lex_number_def split: prod.splits option.splits)
  from lex_sign_length [OF a] lex_int_length [OF b] lex_frac_length [OF c]
    lex_exp_length [OF d]
  show ?thesis by linarith
qed

text \<open>The lexical pass.\<close>

function tokenize :: "jsstring \<Rightarrow> token list option" where
  "tokenize [] = Some []"
| "tokenize (c # cs) =
     (if is_json_ws c then tokenize cs
      else if c = LBRACKET then map_option (Cons TLBracket) (tokenize cs)
      else if c = RBRACKET then map_option (Cons TRBracket) (tokenize cs)
      else if c = LBRACE then map_option (Cons TLBrace) (tokenize cs)
      else if c = RBRACE then map_option (Cons TRBrace) (tokenize cs)
      else if c = COMMA then map_option (Cons TComma) (tokenize cs)
      else if c = COLON then map_option (Cons TColon) (tokenize cs)
      else if c = DQUOTE then
        (case lex_string cs of
           None \<Rightarrow> None
         | Some (s, r) \<Rightarrow> map_option (Cons (TString s)) (tokenize r))
      else if c = MINUS \<or> is_digit c then
        (case lex_number (c # cs) of
           None \<Rightarrow> None
         | Some (n, r) \<Rightarrow> map_option (Cons (TNumber n)) (tokenize r))
      else if take 4 (c # cs) = js ''true'' then map_option (Cons TTrue) (tokenize (drop 3 cs))
      else if take 5 (c # cs) = js ''false'' then map_option (Cons TFalse) (tokenize (drop 4 cs))
      else if take 4 (c # cs) = js ''null'' then map_option (Cons TNull) (tokenize (drop 3 cs))
      else None)"
  by pat_completeness auto
termination
proof (relation "measure length")
  fix c cs x2 x y
  assume "lex_number (c # cs) = Some x2" "(x, y) = x2"
  then have "lex_number (c # cs) = Some (x, y)" by simp
  from lex_number_length [OF this] show "(y, c # cs) \<in> measure length" by simp
next
  fix c cs x2 x y
  assume "lex_string cs = Some x2" "(x, y) = x2"
  then have "lex_string cs = Some (x, y)" by simp
  from lex_string_length [OF this] show "(y, c # cs) \<in> measure length" by simp
qed auto

text \<open>
  The syntactic grammar, as a pushdown automaton. A frame is an array or an object under
  construction; an object frame holds the key whose value is being read.
\<close>

datatype frame =
    FArr "jsval list"
  | FObj "(jsstring \<times> jsval) list" "jsstring option"

datatype phase =
    Value
  | ArrStart
  | ObjStart
  | Key
  | Colon
  | After jsval

text \<open>
  Defining a property: a repeated key keeps its place and takes the later value. (The
  handler never enumerates a parsed object, so the place of a key is not observed.)
\<close>

fun put :: "jsstring \<Rightarrow> jsval \<Rightarrow> (jsstring \<times> jsval) list \<Rightarrow> (jsstring \<times> jsval) list" where
  "put k v [] = [(k, v)]"
| "put k v ((k', v') # kvs) = (if k = k' then (k, v) # kvs else (k', v') # put k v kvs)"

text \<open>
  The number a literal denotes is its nearest double, rendered by \<open>ToString\<close>: that
  conversion is the parameter \<open>num\<close>.
\<close>

fun start_value :: "(jsstring \<Rightarrow> jsstring) \<Rightarrow> frame list \<Rightarrow> token \<Rightarrow> (phase \<times> frame list) option" where
  "start_value num st (TString s) = Some (After (JStr s), st)"
| "start_value num st (TNumber n) = Some (After (JNum (num n)), st)"
| "start_value num st TTrue = Some (After (JBool True), st)"
| "start_value num st TFalse = Some (After (JBool False), st)"
| "start_value num st TNull = Some (After JNull, st)"
| "start_value num st TLBracket = Some (ArrStart, FArr [] # st)"
| "start_value num st TLBrace = Some (ObjStart, FObj [] None # st)"
| "start_value num st _ = None"

fun step :: "(jsstring \<Rightarrow> jsstring) \<Rightarrow> phase \<times> frame list \<Rightarrow> token \<Rightarrow> (phase \<times> frame list) option" where
  "step num (Value, st) t = start_value num st t"
| "step num (ArrStart, FArr vs # st) TRBracket = Some (After (JArr vs), st)"
| "step num (ArrStart, st) t = start_value num st t"
| "step num (ObjStart, FObj kvs _ # st) TRBrace = Some (After (JObj kvs), st)"
| "step num (ObjStart, FObj kvs _ # st) (TString k) = Some (Colon, FObj kvs (Some k) # st)"
| "step num (ObjStart, st) t = None"
| "step num (Key, FObj kvs _ # st) (TString k) = Some (Colon, FObj kvs (Some k) # st)"
| "step num (Key, st) t = None"
| "step num (Colon, st) TColon = Some (Value, st)"
| "step num (Colon, st) t = None"
| "step num (After v, FArr vs # st) TComma = Some (Value, FArr (vs @ [v]) # st)"
| "step num (After v, FArr vs # st) TRBracket = Some (After (JArr (vs @ [v])), st)"
| "step num (After v, FObj kvs (Some k) # st) TComma = Some (Key, FObj (put k v kvs) None # st)"
| "step num (After v, FObj kvs (Some k) # st) TRBrace = Some (After (JObj (put k v kvs)), st)"
| "step num (After v, st) t = None"

fun run :: "(jsstring \<Rightarrow> jsstring) \<Rightarrow> phase \<times> frame list \<Rightarrow> token list \<Rightarrow> (phase \<times> frame list) option" where
  "run num ps [] = Some ps"
| "run num ps (t # ts) = (case step num ps t of None \<Rightarrow> None | Some ps' \<Rightarrow> run num ps' ts)"

text \<open>The text must be exactly one value.\<close>

definition JSON_parse :: "(jsstring \<Rightarrow> jsstring) \<Rightarrow> jsstring \<Rightarrow> jsval option" where
  "JSON_parse num s =
     (case tokenize s of
        None \<Rightarrow> None
      | Some ts \<Rightarrow>
          (case run num (Value, []) ts of
             Some (After v, []) \<Rightarrow> Some v
           | _ \<Rightarrow> None))"

section \<open>\<open>JSON.stringify\<close>\<close>

text \<open>
  \<open>QuoteJSONString\<close>: the string between double quotes, with the short escapes, a
  \<open>\uXXXX\<close> escape (lower-case hexadecimal) for the other code units below U+0020 and
  for a surrogate that is not part of a pair.
\<close>

definition hex_digit :: "nat \<Rightarrow> jschar" where
  "hex_digit n = (if n < 10 then 48 + n else 87 + n)"

definition unicode_escape :: "jschar \<Rightarrow> jsstring" where
  "unicode_escape c =
     [BACKSLASH, 117, hex_digit (c div 4096 mod 16), hex_digit (c div 256 mod 16),
      hex_digit (c div 16 mod 16), hex_digit (c mod 16)]"

definition is_lead_surrogate :: "jschar \<Rightarrow> bool" where
  "is_lead_surrogate c \<longleftrightarrow> 55296 \<le> c \<and> c \<le> 56319"

definition is_trail_surrogate :: "jschar \<Rightarrow> bool" where
  "is_trail_surrogate c \<longleftrightarrow> 56320 \<le> c \<and> c \<le> 57343"

definition escape_char :: "jschar \<Rightarrow> jsstring" where
  "escape_char c =
     (if c = 8 then [BACKSLASH, 98]
      else if c = TAB then [BACKSLASH, 116]
      else if c = LF then [BACKSLASH, 110]
      else if c = 12 then [BACKSLASH, 102]
      else if c = CR then [BACKSLASH, 114]
      else if c = DQUOTE then [BACKSLASH, DQUOTE]
      else if c = BACKSLASH then [BACKSLASH, BACKSLASH]
      else if c < 32 then unicode_escape c
      else [c])"

fun quote_chars :: "jsstring \<Rightarrow> jsstring" where
  "quote_chars [] = []"
| "quote_chars (c # cs) =
     (if is_lead_surrogate c then
        (case cs of
           [] \<Rightarrow> unicode_escape c
         | d # ds \<Rightarrow>
             if is_trail_surrogate d then c # d # quote_chars ds
             else unicode_escape c @ quote_chars cs)
      else if is_trail_surrogate c then unicode_escape c @ quote_chars cs
      else escape_char c @ quote_chars cs)"

definition quote_json :: "jsstring \<Rightarrow> jsstring" where
  "quote_json s = DQUOTE # quote_chars s @ [DQUOTE]"

text \<open>
  \<open>JSON.stringify(v)\<close> without replacer or indentation. The result is \<open>undefined\<close>
  (\<open>None\<close>) for \<open>undefined\<close>; inside an array \<open>undefined\<close> is written \<open>null\<close>, inside an
  object the property is left out. A number that is not finite is written \<open>null\<close>. Plain
  data has no cycle, no BigInt and no callable \<open>toJSON\<close>, so nothing is thrown.
\<close>

fun stringify :: "jsval \<Rightarrow> jsstring option"
  and stringify_elems :: "jsval list \<Rightarrow> jsstring list"
  and stringify_members :: "(jsstring \<times> jsval) list \<Rightarrow> jsstring list" where
  "stringify JUndefined = None"
| "stringify JNull = Some (js ''null'')"
| "stringify (JBool b) = Some (if b then js ''true'' else js ''false'')"
| "stringify (JNum r) =
     Some (if r = js ''NaN'' \<or> r = js ''Infinity'' \<or> r = js ''-Infinity'' then js ''null'' else r)"
| "stringify (JStr s) = Some (quote_json s)"
| "stringify (JArr vs) = Some (LBRACKET # join_commas (stringify_elems vs) @ [RBRACKET])"
| "stringify (JObj kvs) = Some (LBRACE # join_commas (stringify_members kvs) @ [RBRACE])"
| "stringify_elems [] = []"
| "stringify_elems (v # vs) =
     (case stringify v of None \<Rightarrow> js ''null'' | Some t \<Rightarrow> t) # stringify_elems vs"
| "stringify_members [] = []"
| "stringify_members ((k, v) # kvs) =
     (case stringify v of
        None \<Rightarrow> stringify_members kvs
      | Some t \<Rightarrow> (quote_json k @ COLON # t) # stringify_members kvs)"

section \<open>The fallback parser's regular expressions\<close>

text \<open>The class \<open>[\s\[\]"]\<close> of the first replace.\<close>

definition is_bracket_quote_space :: "jschar \<Rightarrow> bool" where
  "is_bracket_quote_space c \<longleftrightarrow> is_space c \<or> c = LBRACKET \<or> c = RBRACKET \<or> c = DQUOTE"

text \<open>
  The separator of the split,
  \<^verbatim>\<open>/\r?\n|"\s*,\s*"|",\s*"|"\s*,\s*|\s*[,]\s*/\<close>,
  matched at the start of the input: the input after the match, if there is one. Each
  alternative is a function of its own; they are tried in the order written. A greedy
  \<open>\s*\<close> followed by a character that is not white space can only succeed with the whole
  run of white space, so the run is dropped with \<open>dropWhile\<close>.
\<close>

definition sep_newline :: "jsstring \<Rightarrow> jsstring option" where
  "sep_newline s =
     (case s of
        [] \<Rightarrow> None
      | c # r \<Rightarrow>
          if c = CR \<and> r \<noteq> [] \<and> hd r = LF then Some (tl r)
          else if c = LF then Some r
          else None)"

definition sep_quote_comma_quote :: "jsstring \<Rightarrow> jsstring option" where
  "sep_quote_comma_quote s =
     (case s of
        [] \<Rightarrow> None
      | c # r \<Rightarrow>
          if c = DQUOTE then
            (case dropWhile is_space r of
               [] \<Rightarrow> None
             | d # r2 \<Rightarrow>
                 if d = COMMA then
                   (case dropWhile is_space r2 of
                      [] \<Rightarrow> None
                    | e # r3 \<Rightarrow> if e = DQUOTE then Some r3 else None)
                 else None)
          else None)"

definition sep_quote_comma_space_quote :: "jsstring \<Rightarrow> jsstring option" where
  "sep_quote_comma_space_quote s =
     (case s of
        c # d # r \<Rightarrow>
          if c = DQUOTE \<and> d = COMMA then
            (case dropWhile is_space r of
               [] \<Rightarrow> None
             | e # r3 \<Rightarrow> if e = DQUOTE then Some r3 else None)
          else None
      | _ \<Rightarrow> None)"

definition sep_quote_comma :: "jsstring \<Rightarrow> jsstring option" where
  "sep_quote_comma s =
     (case s of
        [] \<Rightarrow> None
      | c # r \<Rightarrow>
          if c = DQUOTE then
            (case dropWhile is_space r of
               [] \<Rightarrow> None
             | d # r2 \<Rightarrow> if d = COMMA then Some (dropWhile is_space r2) else None)
          else None)"

definition sep_comma :: "jsstring \<Rightarrow> jsstring option" where
  "sep_comma s =
     (case dropWhile is_space s of
        [] \<Rightarrow> None
      | d # r2 \<Rightarrow> if d = COMMA then Some (dropWhile is_space r2) else None)"

definition orelse :: "'a option \<Rightarrow> 'a option \<Rightarrow> 'a option" where
  "orelse a b = (case a of Some x \<Rightarrow> Some x | None \<Rightarrow> b)"

definition match_sep :: "jsstring \<Rightarrow> jsstring option" where
  "match_sep s =
     orelse (sep_newline s)
       (orelse (sep_quote_comma_quote s)
          (orelse (sep_quote_comma_space_quote s)
             (orelse (sep_quote_comma s) (sep_comma s))))"

lemma sep_newline_length: "sep_newline s = Some r \<Longrightarrow> length r < length s"
  by (cases s) (auto simp: sep_newline_def split: if_splits)

lemma sep_quote_comma_quote_length:
  assumes "sep_quote_comma_quote s = Some r"
  shows "length r < length s"
proof -
  from assms obtain t r2 where s: "s = DQUOTE # t"
    and a: "dropWhile is_space t = COMMA # r2"
    and b: "dropWhile is_space r2 = DQUOTE # r"
    by (auto simp: sep_quote_comma_quote_def split: list.splits if_splits)
  have "length (dropWhile is_space t) \<le> length t" "length (dropWhile is_space r2) \<le> length r2"
    by (rule length_dropWhile_le)+
  with a b s show ?thesis by simp
qed

lemma sep_quote_comma_space_quote_length:
  assumes "sep_quote_comma_space_quote s = Some r"
  shows "length r < length s"
proof -
  from assms obtain t where s: "s = DQUOTE # COMMA # t"
    and b: "dropWhile is_space t = DQUOTE # r"
    by (auto simp: sep_quote_comma_space_quote_def split: list.splits if_splits)
  have "length (dropWhile is_space t) \<le> length t"
    by (rule length_dropWhile_le)
  with b s show ?thesis by simp
qed

lemma sep_quote_comma_length:
  assumes "sep_quote_comma s = Some r"
  shows "length r < length s"
proof -
  from assms obtain t r2 where s: "s = DQUOTE # t"
    and a: "dropWhile is_space t = COMMA # r2"
    and b: "r = dropWhile is_space r2"
    by (auto simp: sep_quote_comma_def split: list.splits if_splits)
  have "length (dropWhile is_space t) \<le> length t" "length (dropWhile is_space r2) \<le> length r2"
    by (rule length_dropWhile_le)+
  with a b s show ?thesis by simp
qed

lemma sep_comma_length:
  assumes "sep_comma s = Some r"
  shows "length r < length s"
proof -
  from assms obtain r2 where a: "dropWhile is_space s = COMMA # r2"
    and b: "r = dropWhile is_space r2"
    by (auto simp: sep_comma_def split: list.splits if_splits)
  have "length (dropWhile is_space s) \<le> length s" "length (dropWhile is_space r2) \<le> length r2"
    by (rule length_dropWhile_le)+
  with a b show ?thesis by simp
qed

lemma match_sep_length: "match_sep s = Some r \<Longrightarrow> length r < length s"
  by (auto simp: match_sep_def orelse_def split: option.splits
      dest: sep_newline_length sep_quote_comma_quote_length sep_quote_comma_space_quote_length
        sep_quote_comma_length sep_comma_length)

text \<open>
  \<open>String.prototype.split\<close> with that separator: the loop looks for a match at each
  index from the start of the current piece; a match closes the piece and the next piece
  starts after the match; the rest of the string is the last piece. The separator never
  matches the empty string, so an empty input gives one empty piece.
\<close>

function split_loop :: "jsstring \<Rightarrow> jsstring \<Rightarrow> jsstring list" where
  "split_loop piece [] = [piece]"
| "split_loop piece (c # cs) =
     (case match_sep (c # cs) of
        Some r \<Rightarrow> piece # split_loop [] r
      | None \<Rightarrow> split_loop (piece @ [c]) cs)"
  by pat_completeness auto
termination
proof (relation "measure (\<lambda>(piece, s). length s)")
  fix piece c cs r
  assume "match_sep (c # cs) = Some r"
  from match_sep_length [OF this]
  show "(([], r), (piece, c # cs)) \<in> measure (\<lambda>(piece, s). length s)" by simp
qed auto

definition split_sep :: "jsstring \<Rightarrow> jsstring list" where
  "split_sep s = split_loop [] s"

text \<open>
  \<open>s.replace(/^\d+[\).\s-]+/, "")\<close>: a leading run of digits followed by a run of
  \<open>)\<close>, \<open>.\<close>, white space or \<open>-\<close> is removed; without both runs the string is unchanged.
\<close>

definition is_numbering_sep :: "jschar \<Rightarrow> bool" where
  "is_numbering_sep c \<longleftrightarrow> c = RPAREN \<or> c = DOT \<or> is_space c \<or> c = MINUS"

definition strip_numbering :: "jsstring \<Rightarrow> jsstring" where
  "strip_numbering s =
     (if takeWhile is_digit s \<noteq> [] \<and> takeWhile is_numbering_sep (dropWhile is_digit s) \<noteq> []
      then dropWhile is_numbering_sep (dropWhile is_digit s)
      else s)"

text \<open>The class \<open>["'\s]\<close> of the last replace.\<close>

definition is_quote_space :: "jschar \<Rightarrow> bool" where
  "is_quote_space c \<longleftrightarrow> c = DQUOTE \<or> c = SQUOTE \<or> is_space c"

text \<open>The function mapped over the pieces.\<close>

definition clean_piece :: "jsstring \<Rightarrow> jsstring" where
  "clean_piece s = trim (strip_both is_quote_space (strip_numbering s))"

text \<open>
  \<open>Array.from(new Set(xs))\<close>: a set keeps its elements in insertion order, and adding
  an element it already holds changes nothing.
\<close>

fun set_add_all :: "'a list \<Rightarrow> 'a list \<Rightarrow> 'a list" where
  "set_add_all seen [] = seen"
| "set_add_all seen (x # xs) =
     (if x \<in> set seen then set_add_all seen xs else set_add_all (seen @ [x]) xs)"

definition array_from_set :: "'a list \<Rightarrow> 'a list" where
  "array_from_set xs = set_add_all [] xs"

text \<open>\<open>filter(Boolean)\<close> on strings: the empty string is dropped.\<close>

definition filter_Boolean :: "jsstring list \<Rightarrow> jsstring list" where
  "filter_Boolean xs = filter (\<lambda>s. s \<noteq> []) xs"

text \<open>The fallback path of the parse step (the \<open>catch\<close> block), on the text blob.\<close>

definition fallback_questions :: "jsstring \<Rightarrow> jsstring list" where
  "fallback_questions text =
     array_from_set
       (filter_Boolean (map clean_piece (split_sep (strip_both is_bracket_quote_space text))))"

section \<open>The request, the collaborators and the store\<close>

text \<open>
  What the handler reads of a request: the outcome of \<open>request.json()\<close> (\<open>None\<close> when
  the promise rejects, for a missing or malformed body) and the two headers it gets
  (\<open>None\<close> when the header is absent).
\<close>

record request =
  json_body :: "jsval option"
  x_vapi_secret :: "jsstring option"
  authorization :: "jsstring option"

text \<open>The decoded token of \<open>auth.verifyIdToken\<close>: the handler reads its \<open>uid\<close>.\<close>

record decoded_id_token =
  uid :: jsstring

text \<open>The document written to the \<open>interviews\<close> collection.\<close>

record interview =
  iv_role :: jsval
  iv_type :: jsval
  iv_level :: jsval
  iv_techstack :: "jsstring list"
  iv_questions :: "jsstring list"
  iv_userId :: jsval
  iv_finalized :: bool
  iv_coverImage :: jsstring
  iv_createdAt :: jsstring

text \<open>
  The surroundings of one request: the environment variable, the identity provider, the
  text-generation provider, the cover picker and the clock (each read once), the
  document store's verdict on a document (\<open>Some\<close> error when \<open>add\<close> rejects it), and the
  conversion of a number literal used by \<open>JSON.parse\<close>.
\<close>

record env =
  VAPI_SECRET :: "jsstring option"
  verifyIdToken :: "jsstring \<Rightarrow> exn + decoded_id_token"
  generateText :: "jsstring \<Rightarrow> exn + jsval"
  getRandomInterviewCover :: jsstring
  now_ISO :: jsstring
  add_rejects :: "interview \<Rightarrow> exn option"
  number_of_literal :: "jsstring \<Rightarrow> jsstring"

datatype resp_body =
    Success
  | Error jsstring

record response =
  status :: nat
  body :: resp_body

datatype log_entry =
    Log_unauthorized
  | Log_token_verification_failed exn
  | Log_no_questions jsval
  | Log_error exn

text \<open>The handler either resolves with a response or rejects with what was thrown.\<close>

datatype outcome =
    Responded response
  | Threw exn

record result =
  outcome :: outcome
  store :: "interview list"
  logs :: "log_entry list"

section \<open>The POST handler\<close>

text \<open>
  Lines 10 and 11: the body, with \<open>{}\<close> when \<open>request.json()\<close> rejects, and its
  destructuring, which throws on \<open>null\<close> (the message is V8's). Both lines stand before
  the \<open>try\<close> block.
\<close>

record body_fields =
  f_type :: jsval
  f_role :: jsval
  f_level :: jsval
  f_techstack :: jsval
  f_amount :: jsval
  f_userid :: jsval

definition body_of :: "request \<Rightarrow> jsval" where
  "body_of req = (case json_body req of None \<Rightarrow> JObj [] | Some v \<Rightarrow> v)"

definition destructure :: "jsval \<Rightarrow> exn + body_fields" where
  "destructure b =
     (if b = JNull \<or> b = JUndefined then
        Inl (TypeError (js ''Cannot destructure property '' @ [SQUOTE] @ js ''type'' @ [SQUOTE] @
               js '' of '' @ [SQUOTE] @ js ''body'' @ [SQUOTE] @ js '' as it is null.''))
      else
        Inr \<lparr>f_type = get_prop b (js ''type''), f_role = get_prop b (js ''role''),
             f_level = get_prop b (js ''level''), f_techstack = get_prop b (js ''techstack''),
             f_amount = get_prop b (js ''amount''), f_userid = get_prop b (js ''userid'')\<rparr>)"

text \<open>\<open>request.headers.get(name) || ""\<close>.\<close>

definition header_or_empty :: "jsstring option \<Rightarrow> jsstring" where
  "header_or_empty h = (case h of None \<Rightarrow> [] | Some v \<Rightarrow> v)"

text \<open>Step 1, lines 16 to 22: whether the shared-secret check answers 401.\<close>

definition secret_rejected :: "env \<Rightarrow> request \<Rightarrow> bool" where
  "secret_rejected e req =
     (case VAPI_SECRET e of
        None \<Rightarrow> False
      | Some secret \<Rightarrow>
          secret \<noteq> [] \<and>
          (header_or_empty (x_vapi_secret req) = [] \<or>
           header_or_empty (x_vapi_secret req) \<noteq> secret))"

text \<open>
  \<open>authHeader.match(/^Bearer (.+)$/)\<close>: the dot matches no line terminator and, without
  the \<open>m\<close> flag, \<open>$\<close> is the end of the input.
\<close>

definition is_line_terminator :: "jschar \<Rightarrow> bool" where
  "is_line_terminator c \<longleftrightarrow> c = LF \<or> c = CR \<or> c = 8232 \<or> c = 8233"

definition match_bearer :: "jsstring \<Rightarrow> jsstring option" where
  "match_bearer h =
     (if take 7 h = js ''Bearer '' \<and> drop 7 h \<noteq> [] \<and>
         (\<forall>c \<in> set (drop 7 h). \<not> is_line_terminator c)
      then Some (drop 7 h) else None)"

text \<open>Step 2, lines 26 to 40: the resolved user id and what is logged.\<close>

definition resolve_user :: "env \<Rightarrow> request \<Rightarrow> jsval \<Rightarrow> jsval \<times> log_entry list" where
  "resolve_user e req userid =
     (case match_bearer (header_or_empty (authorization req)) of
        None \<Rightarrow> (userid, [])
      | Some idToken \<Rightarrow>
          (case verifyIdToken e idToken of
             Inl err \<Rightarrow> (userid, [Log_token_verification_failed err])
           | Inr decoded \<Rightarrow> (if uid decoded \<noteq> [] then JStr (uid decoded) else userid, [])))"

text \<open>
  Step 3, lines 45 to 54: the prompt. Interpolating a value converts it to a string, which
  can throw.
\<close>

definition prompt :: "body_fields \<Rightarrow> jsstring option" where
  "prompt f =
     (case to_String (f_role f) of None \<Rightarrow> None | Some role \<Rightarrow>
      case to_String (f_level f) of None \<Rightarrow> None | Some level \<Rightarrow>
      case to_String (f_techstack f) of None \<Rightarrow> None | Some techstack \<Rightarrow>
      case to_String (f_type f) of None \<Rightarrow> None | Some type \<Rightarrow>
      case to_String (f_amount f) of None \<Rightarrow> None | Some amount \<Rightarrow>
        Some (js ''Prepare questions for a job interview.'' @ [LF] @
              js ''The job role is '' @ role @ js ''.'' @ [LF] @
              js ''The job experience level is '' @ level @ js ''.'' @ [LF] @
              js ''The tech stack used in the job is: '' @ techstack @ js ''.'' @ [LF] @
              js ''The focus between behavioural and technical questions should lean towards: '' @
                type @ js ''.'' @ [LF] @
              js ''The amount of questions required is: '' @ amount @ js ''.'' @ [LF] @
              js ''Please return only the questions, without any additional text.'' @ [LF] @
              js ''The questions are going to be read by a voice assistant so do not use \"/\" or \"*\" or any other special characters which might break the voice assistant.'' @ [LF] @
              js ''Return the questions formatted like this:'' @ [LF] @
              js ''[\"Question 1\", \"Question 2\", \"Question 3\"]''))"

definition cannot_convert :: exn where
  "cannot_convert = TypeError (js ''Cannot convert object to primitive value'')"

text \<open>Line 43: the call of the model with that prompt; the model may reject.\<close>

definition model_call :: "env \<Rightarrow> body_fields \<Rightarrow> exn + jsval" where
  "model_call e f =
     (case prompt f of
        None \<Rightarrow> Inl cannot_convert
      | Some p \<Rightarrow> generateText e p)"

text \<open>
  Step 4, lines 59 to 78: the text of the model's response. \<open>questionsText\<close> stays
  \<open>undefined\<close> when no branch assigns it; the second shape assigns whatever truthy
  value \<open>content[0].text\<close> holds.
\<close>

fun elems :: "jsval \<Rightarrow> jsval list" where
  "elems (JArr vs) = vs"
| "elems _ = []"

fun is_string :: "jsval \<Rightarrow> bool" where
  "is_string (JStr _) = True"
| "is_string _ = False"

text \<open>\<open>typeof v === "object"\<close>.\<close>

fun typeof_object :: "jsval \<Rightarrow> bool" where
  "typeof_object JNull = True"
| "typeof_object (JArr _) = True"
| "typeof_object (JObj _) = True"
| "typeof_object _ = False"

definition extract_text :: "jsval \<Rightarrow> jsval" where
  "extract_text llm =
     (if truthy llm \<and> typeof_object llm then
        (if has_prop llm (js ''text'') \<and> is_string (get_prop llm (js ''text'')) then
           get_prop llm (js ''text'')
         else if truthy (get_prop llm (js ''output'')) \<and> is_array (get_prop llm (js ''output'')) \<and>
                 truthy (opt_prop (first_elem (elems (get_prop llm (js ''output'')))) (js ''content''))
         then
           (let content = get_prop (first_elem (elems (get_prop llm (js ''output'')))) (js ''content'')
            in if is_array content \<and> truthy (opt_prop (first_elem (elems content)) (js ''text''))
               then get_prop (first_elem (elems content)) (js ''text'')
               else JUndefined)
         else (case stringify llm of None \<Rightarrow> JUndefined | Some t \<Rightarrow> JStr t))
      else if is_string llm then llm
      else JUndefined)"

text \<open>
  Step 5, lines 81 to 104. \<open>xs.map(q => String(q).trim()).filter(Boolean)\<close> throws
  (\<open>None\<close>) when a conversion throws.
\<close>

definition trimmed_strings :: "jsval list \<Rightarrow> jsstring list option" where
  "trimmed_strings qs =
     map_option filter_Boolean (sequence (map (\<lambda>q. map_option trim (to_String q)) qs))"

text \<open>
  The \<open>try\<close> block of step 5: the question list, or \<open>None\<close> when anything in it throws
  (\<open>JSON.parse\<close>, which first converts its argument to a string, a \<open>String(q)\<close>, or the
  explicit \<open>throw\<close> for a parsed value of neither accepted shape).
\<close>

definition strict_parse :: "(jsstring \<Rightarrow> jsstring) \<Rightarrow> jsval \<Rightarrow> jsstring list option" where
  "strict_parse num questionsText =
     (case to_String questionsText of
        None \<Rightarrow> None
      | Some t \<Rightarrow>
          (case JSON_parse num t of
             None \<Rightarrow> None
           | Some parsed \<Rightarrow>
               if is_array parsed then trimmed_strings (elems parsed)
               else if truthy parsed \<and> truthy (get_prop parsed (js ''questions'')) \<and>
                       is_array (get_prop parsed (js ''questions''))
               then trimmed_strings (elems (get_prop parsed (js ''questions'')))
               else None))"

text \<open>
  The whole of step 5. In the \<open>catch\<close> block \<open>questionsText.replace\<close> is a function only
  when \<open>questionsText\<close> is a string; otherwise the call throws, out of the \<open>catch\<close>.
\<close>

definition parse_questions :: "(jsstring \<Rightarrow> jsstring) \<Rightarrow> jsval \<Rightarrow> exn + jsstring list" where
  "parse_questions num questionsText =
     (if truthy questionsText then
        (case strict_parse num questionsText of
           Some qs \<Rightarrow> Inr qs
         | None \<Rightarrow>
             (case questionsText of
                JStr t \<Rightarrow> Inr (fallback_questions t)
              | _ \<Rightarrow> Inl (TypeError (js ''questionsText.replace is not a function''))))
      else Inr [])"

text \<open>
  Line 117: \<open>techstack.split(",")\<close> for a string, the array itself for an array, else
  the empty array; then \<open>String(s).trim()\<close> on each element.
\<close>

fun split_commas :: "jsstring \<Rightarrow> jsstring list" where
  "split_commas [] = [[]]"
| "split_commas (c # cs) =
     (if c = COMMA then [] # split_commas cs
      else (case split_commas cs of [] \<Rightarrow> [[c]] | p # ps \<Rightarrow> (c # p) # ps))"

definition techstack_list :: "jsval \<Rightarrow> jsstring list option" where
  "techstack_list techstack =
     sequence (map (\<lambda>s. map_option trim (to_String s))
       (case techstack of
          JStr t \<Rightarrow> map JStr (split_commas t)
        | JArr vs \<Rightarrow> vs
        | _ \<Rightarrow> []))"

text \<open>Lines 113 to 123: the document.\<close>

definition interview_of ::
  "env \<Rightarrow> body_fields \<Rightarrow> jsstring list \<Rightarrow> jsstring list \<Rightarrow> jsval \<Rightarrow> interview" where
  "interview_of e f ts questionsArray resolvedUserId =
     \<lparr>iv_role = f_role f, iv_type = f_type f, iv_level = f_level f, iv_techstack = ts,
      iv_questions = questionsArray, iv_userId = resolvedUserId, iv_finalized = True,
      iv_coverImage = getRandomInterviewCover e, iv_createdAt = now_ISO e\<rparr>"

definition response_401 :: response where
  "response_401 = \<lparr>status = 401, body = Error (js ''Unauthorized VAPI request'')\<rparr>"

definition response_502 :: response where
  "response_502 = \<lparr>status = 502, body = Error (js ''LLM did not return questions'')\<rparr>"

definition response_200 :: response where
  "response_200 = \<lparr>status = 200, body = Success\<rparr>"

definition response_500 :: "exn \<Rightarrow> response" where
  "response_500 err = \<lparr>status = 500, body = Error (exn_to_String err)\<rparr>"

text \<open>
  The \<open>try\<close> block, lines 13 to 127: what it returns or throws, the store and the log
  lines written so far.
\<close>

definition try_block ::
  "env \<Rightarrow> request \<Rightarrow> body_fields \<Rightarrow> interview list \<Rightarrow> (exn + response) \<times> interview list \<times> log_entry list" where
  "try_block e req f st =
     (if secret_rejected e req then (Inr response_401, st, [Log_unauthorized])
      else
        (case resolve_user e req (f_userid f) of
           (resolvedUserId, l) \<Rightarrow>
             (case model_call e f of
                Inl err \<Rightarrow> (Inl err, st, l)
              | Inr llm \<Rightarrow>
                  (case parse_questions (number_of_literal e) (extract_text llm) of
                     Inl err \<Rightarrow> (Inl err, st, l)
                   | Inr questionsArray \<Rightarrow>
                       if questionsArray = [] then
                         (Inr response_502, st, l @ [Log_no_questions (extract_text llm)])
                       else
                         (case techstack_list (f_techstack f) of
                            None \<Rightarrow> (Inl cannot_convert, st, l)
                          | Some ts \<Rightarrow>
                              (case add_rejects e
                                      (interview_of e f ts questionsArray resolvedUserId) of
                                 Some err \<Rightarrow> (Inl err, st, l)
                               | None \<Rightarrow>
                                   (Inr response_200,
                                    st @ [interview_of e f ts questionsArray resolvedUserId],
                                    l)))))))"

text \<open>
  The handler: the destructuring outside the \<open>try\<close>, the \<open>try\<close> block, and the
  \<open>catch\<close> of lines 128 to 131 that turns a thrown error into a 500 response.
\<close>

definition POST :: "env \<Rightarrow> request \<Rightarrow> interview list \<Rightarrow> result" where
  "POST e req st =
     (case destructure (body_of req) of
        Inl err \<Rightarrow> \<lparr>outcome = Threw err, store = st, logs = []\<rparr>
      | Inr f \<Rightarrow>
          (case try_block e req f st of
             (Inr r, st', l) \<Rightarrow> \<lparr>outcome = Responded r, store = st', logs = l\<rparr>
           | (Inl err, st', l) \<Rightarrow>
               \<lparr>outcome = Responded (response_500 err), store = st', logs = l @ [Log_error err]\<rparr>))"

section \<open>Example inputs\<close>

text \<open>
  Concrete surroundings and requests on which the theorems below are exercised: a model
  that answers with the text \<open>t\<close>, an identity provider that accepts the token
  \<open>good\<close> for the user \<open>alice\<close> and rejects every other token, and a store that
  accepts every document. The body names a role and the user \<open>bob\<close>.
\<close>

definition example_env :: "jsstring option \<Rightarrow> jsstring \<Rightarrow> env" where
  "example_env secret t =
     \<lparr>VAPI_SECRET = secret,
      verifyIdToken = (\<lambda>idToken. if idToken = js ''good'' then Inr \<lparr>uid = js ''alice''\<rparr>
                                   else Inl (Failure (js ''Error'') (js ''invalid token''))),
      generateText = (\<lambda>p. Inr (JObj [(js ''text'', JStr t)])),
      getRandomInterviewCover = js ''/covers/adobe.png'',
      now_ISO = js ''2025-01-01T00:00:00.000Z'',
      add_rejects = (\<lambda>iv. None),
      number_of_literal = (\<lambda>l. l)\<rparr>"

definition example_request :: "jsstring option \<Rightarrow> jsstring option \<Rightarrow> request" where
  "example_request x a =
     \<lparr>json_body = Some (JObj [(js ''role'', JStr (js ''dev'')), (js ''userid'', JStr (js ''bob''))]),
      x_vapi_secret = x,
      authorization = a\<rparr>"

definition example_fields :: body_fields where
  "example_fields =
     \<lparr>f_type = JUndefined, f_role = JStr (js ''dev''), f_level = JUndefined,
      f_techstack = JUndefined, f_amount = JUndefined, f_userid = JStr (js ''bob'')\<rparr>"

definition example_interview :: "jsstring list \<Rightarrow> jsval \<Rightarrow> interview" where
  "example_interview qs u =
     \<lparr>iv_role = JStr (js ''dev''), iv_type = JUndefined, iv_level = JUndefined, iv_techstack = [],
      iv_questions = qs, iv_userId = u, iv_finalized = True,
      iv_coverImage = js ''/covers/adobe.png'', iv_createdAt = js ''2025-01-01T00:00:00.000Z''\<rparr>"

text \<open>A request whose body is the JSON text \<open>null\<close>.\<close>

definition null_body_request :: "jsstring option \<Rightarrow> jsstring option \<Rightarrow> request" where
  "null_body_request x a = \<lparr>json_body = Some JNull, x_vapi_secret = x, authorization = a\<rparr>"

section \<open>Properties of the string operations\<close>

text \<open>What is left after stripping a class from both ends neither starts nor ends in it.\<close>

lemma strip_trailing_prefix:
  "\<exists>t. s = strip_trailing C s @ t"
proof -
  have "rev (takeWhile C (rev s) @ dropWhile C (rev s)) = rev (rev s)"
    by (simp only: takeWhile_dropWhile_id)
  then have "rev (dropWhile C (rev s)) @ rev (takeWhile C (rev s)) = s"
    by (simp only: rev_append rev_rev_ident)
  then show ?thesis unfolding strip_trailing_def by metis
qed

lemma strip_both_ends:
  assumes "strip_both C s \<noteq> []"
  shows "\<not> C (hd (strip_both C s)) \<and> \<not> C (last (strip_both C s))"
proof -
  let ?t = "strip_leading C s"
  let ?u = "strip_trailing C ?t"
  from assms have u: "?u \<noteq> []" by (simp add: strip_both_def)
  obtain w where w: "?t = ?u @ w" using strip_trailing_prefix by blast
  with u have t: "?t \<noteq> []" by auto
  from w u have "hd ?u = hd ?t" by (metis hd_append2)
  moreover from t have "\<not> C (hd ?t)" unfolding strip_leading_def by (rule hd_dropWhile)
  ultimately have a: "\<not> C (hd ?u)" by simp
  from u have d: "dropWhile C (rev ?t) \<noteq> []" by (simp add: strip_trailing_def)
  then have "\<not> C (hd (dropWhile C (rev ?t)))" by (rule hd_dropWhile)
  moreover from d have "last ?u = hd (dropWhile C (rev ?t))"
    by (simp add: strip_trailing_def last_rev)
  ultimately have b: "\<not> C (last ?u)" by simp
  from a b show ?thesis by (simp add: strip_both_def)
qed

lemma trim_ends:
  "trim s \<noteq> [] \<Longrightarrow> \<not> is_space (hd (trim s)) \<and> \<not> is_space (last (trim s))"
  unfolding trim_def by (rule strip_both_ends)

lemma sequence_Some:
  "sequence xs = Some ys \<Longrightarrow> y \<in> set ys \<Longrightarrow> Some y \<in> set xs"
  by (induction xs arbitrary: ys rule: sequence.induct) (auto split: option.splits)

lemma set_set_add_all: "set (set_add_all seen xs) = set seen \<union> set xs"
  by (induction xs arbitrary: seen) auto

lemma set_array_from_set: "set (array_from_set xs) = set xs"
  by (simp add: array_from_set_def set_set_add_all)

lemma trimmed_strings_clean:
  assumes "trimmed_strings qs = Some out" "q \<in> set out"
  shows "q \<noteq> [] \<and> \<not> is_space (hd q) \<and> \<not> is_space (last q)"
proof -
  from assms obtain ys where ys: "sequence (map (\<lambda>q. map_option trim (to_String q)) qs) = Some ys"
    and out: "out = filter_Boolean ys"
    by (auto simp: trimmed_strings_def)
  from assms(2) out have q: "q \<in> set ys" "q \<noteq> []" by (auto simp: filter_Boolean_def)
  from sequence_Some [OF ys q(1)] obtain v where "Some q = map_option trim (to_String v)"
    by auto
  then obtain x where "q = trim x" by (cases "to_String v") auto
  with q(2) trim_ends show ?thesis by blast
qed

lemma fallback_questions_clean:
  assumes "q \<in> set (fallback_questions t)"
  shows "q \<noteq> [] \<and> \<not> is_space (hd q) \<and> \<not> is_space (last q)"
proof -
  from assms obtain p where "q = clean_piece p" "q \<noteq> []"
    by (auto simp: fallback_questions_def set_array_from_set filter_Boolean_def)
  then show ?thesis using trim_ends by (auto simp: clean_piece_def)
qed

lemma parse_questions_clean:
  assumes "parse_questions num qt = Inr qs" "q \<in> set qs"
  shows "q \<noteq> [] \<and> \<not> is_space (hd q) \<and> \<not> is_space (last q)"
proof (cases "strict_parse num qt")
  case None
  with assms obtain t where "qt = JStr t" "qs = fallback_questions t"
    by (auto simp: parse_questions_def split: if_splits jsval.splits)
  with assms(2) fallback_questions_clean show ?thesis by blast
next
  case (Some out)
  with assms have "truthy qt" "qs = out" by (auto simp: parse_questions_def split: if_splits)
  from Some obtain vs where "trimmed_strings vs = Some out"
    by (auto simp: strict_parse_def split: option.splits if_splits)
  with assms(2) \<open>qs = out\<close> trimmed_strings_clean show ?thesis by blast
qed

text \<open>
  The separator matches at every comma and at every line feed, and matches nowhere in a
  text that has neither.
\<close>

lemma match_sep_None:
  assumes "match_sep (c # cs) = None"
  shows "c \<noteq> COMMA \<and> c \<noteq> LF"
proof -
  have "c = LF \<Longrightarrow> sep_newline (c # cs) \<noteq> None" by (simp add: sep_newline_def)
  moreover have "c = COMMA \<Longrightarrow> sep_comma (c # cs) \<noteq> None"
    by (simp add: sep_comma_def is_space_def)
  ultimately show ?thesis using assms
    by (auto simp: match_sep_def orelse_def split: option.splits)
qed

lemma match_sep_Some:
  assumes "match_sep s = Some r"
  shows "COMMA \<in> set s \<or> LF \<in> set s"
proof -
  have dw: "\<And>t d r2. dropWhile is_space t = d # r2 \<Longrightarrow> d \<in> set t"
    by (metis list.set_intros(1) set_dropWhileD)
  have a: "sep_newline s = Some r \<Longrightarrow> LF \<in> set s"
    by (cases s) (auto simp: sep_newline_def split: if_splits dest: hd_in_set)
  have b: "sep_quote_comma_quote s = Some r \<Longrightarrow> COMMA \<in> set s"
    by (auto simp: sep_quote_comma_quote_def split: list.splits if_splits dest: dw)
  have c: "sep_quote_comma_space_quote s = Some r \<Longrightarrow> COMMA \<in> set s"
    by (auto simp: sep_quote_comma_space_quote_def split: list.splits if_splits)
  have d: "sep_quote_comma s = Some r \<Longrightarrow> COMMA \<in> set s"
    by (auto simp: sep_quote_comma_def split: list.splits if_splits dest: dw)
  have e: "sep_comma s = Some r \<Longrightarrow> COMMA \<in> set s"
    by (auto simp: sep_comma_def split: list.splits if_splits dest: dw)
  from assms a b c d e show ?thesis
    by (auto simp: match_sep_def orelse_def split: option.splits)
qed

lemma split_loop_pieces:
  "COMMA \<notin> set piece \<Longrightarrow> LF \<notin> set piece \<Longrightarrow> p \<in> set (split_loop piece s) \<Longrightarrow>
     COMMA \<notin> set p \<and> LF \<notin> set p"
proof (induction piece s rule: split_loop.induct)
  case (1 piece)
  then show ?case by simp
next
  case (2 piece c cs)
  show ?case
  proof (cases "match_sep (c # cs)")
    case None
    from match_sep_None [OF None] "2.prems" have "COMMA \<notin> set (piece @ [c])" "LF \<notin> set (piece @ [c])"
      by auto
    moreover from None "2.prems" have "p \<in> set (split_loop (piece @ [c]) cs)" by simp
    ultimately show ?thesis using "2.IH"(1) [OF None] by blast
  next
    case (Some r)
    with "2.prems" have "p = piece \<or> p \<in> set (split_loop [] r)" by simp
    then show ?thesis
    proof
      assume "p = piece"
      with "2.prems" show ?thesis by simp
    next
      assume "p \<in> set (split_loop [] r)"
      with "2.IH"(2) [OF Some] show ?thesis by simp
    qed
  qed
qed

lemma split_loop_whole:
  "COMMA \<notin> set s \<Longrightarrow> LF \<notin> set s \<Longrightarrow> split_loop piece s = [piece @ s]"
proof (induction s arbitrary: piece)
  case Nil
  then show ?case by simp
next
  case (Cons c cs)
  have "match_sep (c # cs) = None"
  proof (cases "match_sep (c # cs)")
    case None
    then show ?thesis .
  next
    case (Some r)
    from match_sep_Some [OF Some] Cons.prems show ?thesis by simp
  qed
  with Cons show ?case by simp
qed

lemma set_strip_both: "set (strip_both C s) \<subseteq> set s"
proof -
  have "set (strip_trailing C t) \<subseteq> set t" for t
    using set_dropWhileD [of _ C "rev t"] by (auto simp: strip_trailing_def)
  moreover have "set (strip_leading C s) \<subseteq> set s"
    by (auto simp: strip_leading_def dest: set_dropWhileD)
  ultimately show ?thesis unfolding strip_both_def by blast
qed

lemma set_strip_numbering: "set (strip_numbering s) \<subseteq> set s"
  by (auto simp: strip_numbering_def dest!: set_dropWhileD)

lemma set_clean_piece: "set (clean_piece s) \<subseteq> set s"
  unfolding clean_piece_def trim_def
  using set_strip_both set_strip_numbering by (meson subset_trans)

text \<open>Unfolding rules that evaluate the parse step on a given text.\<close>

lemmas fallback_eval =
  fallback_questions_def strip_both_def strip_leading_def strip_trailing_def
  is_bracket_quote_space_def is_space_def is_digit_def split_sep_def match_sep_def orelse_def
  sep_newline_def sep_quote_comma_quote_def sep_quote_comma_space_quote_def sep_quote_comma_def
  sep_comma_def clean_piece_def strip_numbering_def trim_def is_quote_space_def
  is_numbering_sep_def filter_Boolean_def array_from_set_def js_def

lemmas parse_eval =
  parse_questions_def strict_parse_def trimmed_strings_def JSON_parse_def is_json_ws_def
  lex_number_def lex_sign_def lex_int_def lex_frac_def lex_exp_def lex_exp_sign_def lex_digits_def

section \<open>Properties of the handler\<close>

text \<open>
  The store after a request is the store before it, or that store with one document
  appended; the second only on the path that answers 200.
\<close>

lemma try_block_store:
  assumes "try_block e req f st = (r, st', l)"
  shows "st' = st \<or>
    (\<exists>llm qs ts. r = Inr response_200 \<and> \<not> secret_rejected e req \<and>
       model_call e f = Inr llm \<and>
       parse_questions (number_of_literal e) (extract_text llm) = Inr qs \<and> qs \<noteq> [] \<and>
       techstack_list (f_techstack f) = Some ts \<and>
       st' = st @ [interview_of e f ts qs (fst (resolve_user e req (f_userid f)))])"
  using assms
  by (auto simp: try_block_def split: if_splits prod.splits option.splits sum.splits)

lemma POST_store:
  "store (POST e req st) = st \<or>
    (\<exists>f llm qs ts. destructure (body_of req) = Inr f \<and>
       outcome (POST e req st) = Responded response_200 \<and>
       \<not> secret_rejected e req \<and> model_call e f = Inr llm \<and>
       parse_questions (number_of_literal e) (extract_text llm) = Inr qs \<and> qs \<noteq> [] \<and>
       techstack_list (f_techstack f) = Some ts \<and>
       store (POST e req st) = st @ [interview_of e f ts qs (fst (resolve_user e req (f_userid f)))])"
proof (cases "destructure (body_of req)")
  case (Inl err)
  then show ?thesis by (simp add: POST_def)
next
  case (Inr f)
  obtain r st' l where t: "try_block e req f st = (r, st', l)" by (cases "try_block e req f st") auto
  from try_block_store [OF t] Inr t show ?thesis
    by (auto simp: POST_def split: sum.splits)
qed

text \<open>
  A failed token verification changes the log only: the response and the store are those
  of the request without the header.
\<close>

lemma try_block_ignores_log:
  assumes "secret_rejected e req = secret_rejected e req'"
    and "resolve_user e req (f_userid f) = (u, l)"
    and "resolve_user e req' (f_userid f) = (u, l')"
  shows "fst (try_block e req f st) = fst (try_block e req' f st) \<and>
         fst (snd (try_block e req f st)) = fst (snd (try_block e req' f st))"
  using assms
  by (simp add: try_block_def split: sum.splits option.splits)

text \<open>The responses of the \<open>try\<close> block.\<close>

lemma try_block_status:
  assumes "try_block e req f st = (Inr r, st', l)"
  shows "(r = response_401 \<and> secret_rejected e req) \<or> r = response_502 \<or> r = response_200"
  using assms
  by (auto simp: try_block_def split: if_splits prod.splits option.splits sum.splits)

text \<open>The header \<open>Bearer <token>\<close> matches, with the token as its group.\<close>

lemma match_bearer_Bearer:
  assumes "idToken \<noteq> []" "\<forall>c \<in> set idToken. \<not> is_line_terminator c"
  shows "match_bearer (js ''Bearer '' @ idToken) = Some idToken"
proof -
  have "length (js ''Bearer '') = 7" by (simp add: js_def)
  then have "take 7 (js ''Bearer '' @ idToken) = js ''Bearer ''"
    "drop 7 (js ''Bearer '' @ idToken) = idToken"
    by simp_all
  with assms show ?thesis by (simp add: match_bearer_def)
qed

lemma match_bearer_empty: "match_bearer [] = None"
  by (simp add: match_bearer_def js_def)

text \<open>
  The handler rejects exactly when the body is \<open>null\<close>; with any other body and a
  configured secret that the header does not carry it answers 401; a missing body, or
  one without any field, reaches the model call with a prompt.
\<close>

lemma secret_check_401:
  assumes "destructure (body_of req) = Inr f"
    and "VAPI_SECRET e = Some secret" and "secret \<noteq> []"
    and "x_vapi_secret req \<noteq> Some secret"
  shows "outcome (POST e req st) = Responded response_401 \<and> store (POST e req st) = st"
proof -
  from assms(2-4) have "secret_rejected e req"
    by (cases "x_vapi_secret req") (auto simp: secret_rejected_def header_or_empty_def)
  with assms(1) show ?thesis by (simp add: POST_def try_block_def)
qed

lemma POST_throws_only_on_null:
  "(\<exists>err. outcome (POST e req st) = Threw err) \<longleftrightarrow> body_of req = JNull \<or> body_of req = JUndefined"
proof (cases "destructure (body_of req)")
  case (Inl x)
  then show ?thesis by (auto simp: POST_def destructure_def split: if_splits)
next
  case (Inr f)
  then show ?thesis
    by (cases "try_block e req f st") (auto simp: POST_def destructure_def split: if_splits sum.splits)
qed

lemma missing_fields_reach_model_call:
  assumes "json_body req = None \<or> json_body req = Some (JObj [])"
  shows "\<exists>f p. destructure (body_of req) = Inr f \<and> prompt f = Some p \<and>
    model_call e f = generateText e p"
  using assms
  by (auto simp: body_of_def destructure_def prompt_def model_call_def)

section \<open>The example inputs, step by step\<close>

lemma example_destructure: "destructure (body_of (example_request x a)) = Inr example_fields"
  by (simp add: destructure_def body_of_def example_request_def example_fields_def js_def)

lemma example_model_call:
  "model_call (example_env secret t) example_fields = Inr (JObj [(js ''text'', JStr t)])"
  by (simp add: model_call_def prompt_def example_env_def example_fields_def)

lemma extract_text_direct: "extract_text (JObj [(js ''text'', JStr t)]) = JStr t"
  by (simp add: extract_text_def)

lemma example_techstack: "techstack_list (f_techstack example_fields) = Some []"
  by (simp add: techstack_list_def example_fields_def)

lemma example_no_questions: "parse_questions num (JStr (js '',,'')) = Inr []"
  by (simp add: parse_eval fallback_eval)

lemma example_no_secret: "\<not> secret_rejected (example_env None t) (example_request x a)"
  by (simp add: secret_rejected_def example_env_def)

lemma example_questions:
  "parse_questions num (JStr (js ''[\"Q1\",\"Q2\"]'')) = Inr [js ''Q1'', js ''Q2'']"
  by (simp add: parse_eval fallback_eval)

lemma example_resolve_good:
  "resolve_user (example_env secret t) (example_request x (Some (js ''Bearer good''))) u =
     (JStr (js ''alice''), [])"
  by (simp add: resolve_user_def header_or_empty_def match_bearer_def example_env_def
      example_request_def is_line_terminator_def js_def)

lemma example_resolve_bad:
  "resolve_user (example_env secret t) (example_request x (Some (js ''Bearer bad''))) u =
     (u, [Log_token_verification_failed (Failure (js ''Error'') (js ''invalid token''))])"
  by (simp add: resolve_user_def header_or_empty_def match_bearer_def example_env_def
      example_request_def is_line_terminator_def js_def)

lemma example_resolve_none:
  "resolve_user (example_env secret t) (example_request x None) u = (u, [])"
  by (simp add: resolve_user_def header_or_empty_def match_bearer_def example_request_def js_def)

lemma example_add: "add_rejects (example_env secret t) iv = None"
  by (simp add: example_env_def)

lemma example_interview_of:
  "interview_of (example_env secret t) example_fields [] qs u = example_interview qs u"
  by (simp add: interview_of_def example_env_def example_fields_def example_interview_def)

lemma example_POST_200:
  assumes "\<not> secret_rejected (example_env secret t) (example_request x a)"
    and "resolve_user (example_env secret t) (example_request x a) (JStr (js ''bob'')) = (u, l)"
    and "parse_questions (\<lambda>l. l) (JStr t) = Inr qs" and "qs \<noteq> []"
  shows "POST (example_env secret t) (example_request x a) st =
    \<lparr>outcome = Responded response_200, store = st @ [example_interview qs u], logs = l\<rparr>"
proof -
  have n: "number_of_literal (example_env secret t) = (\<lambda>l. l)" by (simp add: example_env_def)
  have u: "f_userid example_fields = JStr (js ''bob'')" by (simp add: example_fields_def)
  show ?thesis
    using assms
    by (simp add: POST_def try_block_def example_destructure example_model_call
        extract_text_direct example_techstack example_add example_interview_of n u)
qed

section \<open>The claims\<close>

text \<open>
  C1. When the model's output yields no usable question (the request passed the
  destructuring and the shared-secret check, the model answered, and the parse step ended
  with an empty list), the handler answers 502 with the error
  \<open>LLM did not return questions\<close> and the store is unchanged.
\<close>

theorem POST_502_when_no_questions:
  assumes "destructure (body_of req) = Inr f"
    and "\<not> secret_rejected e req"
    and "model_call e f = Inr llm"
    and "parse_questions (number_of_literal e) (extract_text llm) = Inr []"
  shows "outcome (POST e req st) =
           Responded \<lparr>status = 502, body = Error (js ''LLM did not return questions'')\<rparr> \<and>
         store (POST e req st) = st"
  using assms by (simp add: POST_def try_block_def response_502_def split: prod.splits)

text \<open>
  Exercised on the model output \<open>,,\<close>: not JSON, and the fallback finds only empty
  pieces.
\<close>

theorem POST_502_when_no_questions_witness:
  "destructure (body_of (example_request None None)) = Inr example_fields \<and>
   \<not> secret_rejected (example_env None (js '',,'')) (example_request None None) \<and>
   model_call (example_env None (js '',,'')) example_fields = Inr (JObj [(js ''text'', JStr (js '',,''))]) \<and>
   parse_questions (number_of_literal (example_env None (js '',,'')))
     (extract_text (JObj [(js ''text'', JStr (js '',,''))])) = Inr [] \<and>
   outcome (POST (example_env None (js '',,'')) (example_request None None) []) =
     Responded \<lparr>status = 502, body = Error (js ''LLM did not return questions'')\<rparr> \<and>
   store (POST (example_env None (js '',,'')) (example_request None None) []) = []"
proof -
  have a: "destructure (body_of (example_request None None)) = Inr example_fields"
    by (rule example_destructure)
  have b: "\<not> secret_rejected (example_env None (js '',,'')) (example_request None None)"
    by (simp add: secret_rejected_def example_env_def)
  have c: "model_call (example_env None (js '',,'')) example_fields =
      Inr (JObj [(js ''text'', JStr (js '',,''))])"
    by (rule example_model_call)
  have d: "parse_questions (number_of_literal (example_env None (js '',,'')))
     (extract_text (JObj [(js ''text'', JStr (js '',,''))])) = Inr []"
    by (simp only: extract_text_direct example_no_questions)
  from POST_502_when_no_questions [OF a b c d, of "[]"] a b c d show ?thesis by blast
qed

text \<open>
  C2. With an Authorization header \<open>Bearer <token>\<close> whose token the identity provider
  verifies (a decoded token always has a non-empty \<open>uid\<close>), the document the handler
  persists has that \<open>uid\<close> as its \<open>userId\<close>, whatever the body's \<open>userid\<close>.
\<close>

theorem verified_uid_is_persisted:
  assumes "authorization req = Some (js ''Bearer '' @ idToken)"
    and "idToken \<noteq> []"
    and "\<forall>c \<in> set idToken. \<not> is_line_terminator c"
    and "verifyIdToken e idToken = Inr decoded"
    and "uid decoded \<noteq> []"
    and "store (POST e req st) = st @ [iv]"
  shows "iv_userId iv = JStr (uid decoded)"
proof -
  from assms(1-5) have r: "resolve_user e req u = (JStr (uid decoded), [])" for u
    by (simp add: resolve_user_def header_or_empty_def match_bearer_Bearer)
  from assms(6) have "store (POST e req st) \<noteq> st" by simp
  with POST_store [of e req st] obtain f ts qs where
    "store (POST e req st) = st @ [interview_of e f ts qs (fst (resolve_user e req (f_userid f)))]"
    by blast
  with assms(6) r have "iv = interview_of e f ts qs (JStr (uid decoded))" by simp
  then show ?thesis by (simp add: interview_of_def)
qed

text \<open>
  Exercised with the token \<open>good\<close>, verified for \<open>alice\<close>, on a body whose
  \<open>userid\<close> is \<open>bob\<close>.
\<close>

theorem verified_uid_is_persisted_witness:
  "authorization (example_request None (Some (js ''Bearer good''))) = Some (js ''Bearer '' @ js ''good'') \<and>
   js ''good'' \<noteq> [] \<and>
   \<not> is_line_terminator 103 \<and> \<not> is_line_terminator 111 \<and> \<not> is_line_terminator 100 \<and>
   verifyIdToken (example_env None (js ''[\"Q1\",\"Q2\"]'')) (js ''good'') = Inr \<lparr>uid = js ''alice''\<rparr> \<and>
   uid \<lparr>uid = js ''alice''\<rparr> \<noteq> [] \<and>
   store (POST (example_env None (js ''[\"Q1\",\"Q2\"]'')) (example_request None (Some (js ''Bearer good''))) []) =
     [] @ [example_interview [js ''Q1'', js ''Q2''] (JStr (js ''alice''))] \<and>
   iv_userId (example_interview [js ''Q1'', js ''Q2''] (JStr (js ''alice''))) = JStr (js ''alice'') \<and>
   get_prop (body_of (example_request None (Some (js ''Bearer good'')))) (js ''userid'') = JStr (js ''bob'')"
proof -
  let ?e = "example_env None (js ''[\"Q1\",\"Q2\"]'')"
  let ?r = "example_request None (Some (js ''Bearer good''))"
  let ?iv = "example_interview [js ''Q1'', js ''Q2''] (JStr (js ''alice''))"
  have a: "authorization ?r = Some (js ''Bearer '' @ js ''good'')"
    by (simp add: example_request_def js_def)
  have b: "js ''good'' \<noteq> []" by (simp add: js_def)
  have c: "\<forall>c \<in> set (js ''good''). \<not> is_line_terminator c"
    by (simp add: js_def is_line_terminator_def)
  have c': "\<not> is_line_terminator 103 \<and> \<not> is_line_terminator 111 \<and> \<not> is_line_terminator 100"
    by (simp add: is_line_terminator_def)
  have d: "verifyIdToken ?e (js ''good'') = Inr \<lparr>uid = js ''alice''\<rparr>"
    by (simp add: example_env_def)
  have f: "uid \<lparr>uid = js ''alice''\<rparr> \<noteq> []" by (simp add: js_def)
  have g: "store (POST ?e ?r []) = [] @ [?iv]"
    by (simp add: example_POST_200 [OF example_no_secret example_resolve_good example_questions])
  have h: "get_prop (body_of ?r) (js ''userid'') = JStr (js ''bob'')"
    by (simp add: body_of_def example_request_def js_def)
  from verified_uid_is_persisted [OF a b c d f g] a b c' d f g h show ?thesis by simp
qed


text \<open>
  C3. With an Authorization header \<open>Bearer <token>\<close> whose verification fails, the
  response and the store are those of the same request without the header, and a
  persisted document has the body's \<open>userid\<close> as its \<open>userId\<close>.
\<close>

theorem failed_verification_falls_back:
  assumes "authorization req = Some (js ''Bearer '' @ idToken)"
    and "idToken \<noteq> []"
    and "\<forall>c \<in> set idToken. \<not> is_line_terminator c"
    and "verifyIdToken e idToken = Inl err"
  shows "outcome (POST e req st) = outcome (POST e (req\<lparr>authorization := None\<rparr>) st) \<and>
         store (POST e req st) = store (POST e (req\<lparr>authorization := None\<rparr>) st) \<and>
         (\<forall>iv. store (POST e req st) = st @ [iv] \<longrightarrow>
            iv_userId iv = get_prop (body_of req) (js ''userid''))"
proof -
  let ?req' = "req\<lparr>authorization := None\<rparr>"
  from assms have r: "resolve_user e req u = (u, [Log_token_verification_failed err])" for u
    by (simp add: resolve_user_def header_or_empty_def match_bearer_Bearer)
  have r': "resolve_user e ?req' u = (u, [])" for u
    by (simp add: resolve_user_def header_or_empty_def match_bearer_empty)
  have s: "secret_rejected e req = secret_rejected e ?req'"
    by (simp add: secret_rejected_def split: option.splits)
  have b: "body_of ?req' = body_of req" by (simp add: body_of_def)
  have same: "outcome (POST e req st) = outcome (POST e ?req' st) \<and>
      store (POST e req st) = store (POST e ?req' st)"
  proof (cases "destructure (body_of req)")
    case (Inl x)
    then show ?thesis by (simp add: POST_def b)
  next
    case (Inr f)
    from try_block_ignores_log [OF s r r', of f st] Inr show ?thesis
      by (cases "try_block e req f st"; cases "try_block e ?req' f st")
        (auto simp: POST_def b split: sum.splits)
  qed
  have user: "iv_userId iv = get_prop (body_of req) (js ''userid'')"
    if "store (POST e req st) = st @ [iv]" for iv
  proof -
    from that have "store (POST e req st) \<noteq> st" by simp
    with POST_store [of e req st] obtain f ts qs where
      d: "destructure (body_of req) = Inr f" and
      "store (POST e req st) = st @ [interview_of e f ts qs (fst (resolve_user e req (f_userid f)))]"
      by blast
    with that r have "iv = interview_of e f ts qs (f_userid f)" by simp
    moreover from d have "f_userid f = get_prop (body_of req) (js ''userid'')"
      by (auto simp: destructure_def split: if_splits)
    ultimately show ?thesis by (simp add: interview_of_def)
  qed
  from same user show ?thesis by blast
qed

theorem failed_verification_falls_back_witness:
  "authorization (example_request None (Some (js ''Bearer bad''))) = Some (js ''Bearer '' @ js ''bad'') \<and>
   js ''bad'' \<noteq> [] \<and>
   \<not> is_line_terminator 98 \<and> \<not> is_line_terminator 97 \<and> \<not> is_line_terminator 100 \<and>
   verifyIdToken (example_env None (js ''[\"Q1\",\"Q2\"]'')) (js ''bad'') = Inl (Failure (js ''Error'') (js ''invalid token'')) \<and>
   outcome (POST (example_env None (js ''[\"Q1\",\"Q2\"]'')) (example_request None (Some (js ''Bearer bad''))) []) =
     Responded response_200 \<and>
   outcome (POST (example_env None (js ''[\"Q1\",\"Q2\"]''))
     ((example_request None (Some (js ''Bearer bad'')))\<lparr>authorization := None\<rparr>) []) = Responded response_200 \<and>
   store (POST (example_env None (js ''[\"Q1\",\"Q2\"]''))
     ((example_request None (Some (js ''Bearer bad'')))\<lparr>authorization := None\<rparr>) []) =
     [] @ [example_interview [js ''Q1'', js ''Q2''] (JStr (js ''bob''))] \<and>
   store (POST (example_env None (js ''[\"Q1\",\"Q2\"]'')) (example_request None (Some (js ''Bearer bad''))) []) =
     [] @ [example_interview [js ''Q1'', js ''Q2''] (JStr (js ''bob''))] \<and>
   iv_userId (example_interview [js ''Q1'', js ''Q2''] (JStr (js ''bob''))) =
     get_prop (body_of (example_request None (Some (js ''Bearer bad'')))) (js ''userid'')"
proof -
  let ?e = "example_env None (js ''[\"Q1\",\"Q2\"]'')"
  let ?r = "example_request None (Some (js ''Bearer bad''))"
  let ?iv = "example_interview [js ''Q1'', js ''Q2''] (JStr (js ''bob''))"
  have a: "authorization ?r = Some (js ''Bearer '' @ js ''bad'')"
    by (simp add: example_request_def js_def)
  have b: "js ''bad'' \<noteq> []" by (simp add: js_def)
  have c: "\<forall>c \<in> set (js ''bad''). \<not> is_line_terminator c"
    by (simp add: js_def is_line_terminator_def)
  have c': "\<not> is_line_terminator 98 \<and> \<not> is_line_terminator 97 \<and> \<not> is_line_terminator 100"
    by (simp add: is_line_terminator_def)
  have d: "verifyIdToken ?e (js ''bad'') = Inl (Failure (js ''Error'') (js ''invalid token''))"
    by (simp add: example_env_def js_def)
  have g: "POST ?e ?r [] = \<lparr>outcome = Responded response_200, store = [] @ [?iv],
      logs = [Log_token_verification_failed (Failure (js ''Error'') (js ''invalid token''))]\<rparr>"
    by (simp add: example_POST_200 [OF example_no_secret example_resolve_bad example_questions])
  then have g1: "outcome (POST ?e ?r []) = Responded response_200"
    and g2: "store (POST ?e ?r []) = [] @ [?iv]" by simp_all
  note t = failed_verification_falls_back [OF a b c d, of "[]"]
  from t g1 have h1: "outcome (POST ?e (?r\<lparr>authorization := None\<rparr>) []) = Responded response_200"
    by simp
  from t g2 have h2: "store (POST ?e (?r\<lparr>authorization := None\<rparr>) []) = [] @ [?iv]"
    by simp
  from t g2 have h3: "iv_userId ?iv = get_prop (body_of ?r) (js ''userid'')" by blast
  from a b c' d g1 g2 h1 h2 h3 show ?thesis by blast
qed

text \<open>
  C4. The claim is that a configured secret which the header does not carry gives 401
  whatever the body. On a body that is the JSON text \<open>null\<close> the destructuring of
  line 11 throws before the check of lines 16 to 22 is reached: the handler rejects and
  no 401 is sent.
\<close>

theorem null_body_skips_secret_check:
  "VAPI_SECRET (example_env (Some (js ''s3cret'')) t) = Some (js ''s3cret'') \<and>
   js ''s3cret'' \<noteq> [] \<and>
   x_vapi_secret (null_body_request None None) = None \<and>
   outcome (POST (example_env (Some (js ''s3cret'')) t) (null_body_request None None) st) \<noteq>
     Responded response_401 \<and>
   (\<exists>err. outcome (POST (example_env (Some (js ''s3cret'')) t) (null_body_request None None) st) =
     Threw err)"
  by (simp add: POST_def destructure_def body_of_def null_body_request_def example_env_def js_def)

text \<open>
  C5. On the model output \<open>["Q1","Q2","Q2","Q3"]\<close> the strict parse succeeds, the
  \<open>try\<close> block of the parse step does not throw, and the question list is
  \<open>Q1, Q2, Q2, Q3\<close>, the duplicate kept.
\<close>

theorem strict_parse_keeps_duplicates:
  "JSON_parse num (js ''[\"Q1\",\"Q2\",\"Q2\",\"Q3\"]'') =
     Some (JArr [JStr (js ''Q1''), JStr (js ''Q2''), JStr (js ''Q2''), JStr (js ''Q3'')]) \<and>
   strict_parse num (JStr (js ''[\"Q1\",\"Q2\",\"Q2\",\"Q3\"]'')) =
     Some [js ''Q1'', js ''Q2'', js ''Q2'', js ''Q3''] \<and>
   parse_questions num (JStr (js ''[\"Q1\",\"Q2\",\"Q2\",\"Q3\"]'')) =
     Inr [js ''Q1'', js ''Q2'', js ''Q2'', js ''Q3'']"
  by (simp add: parse_eval fallback_eval)

text \<open>
  C6. The model output \<open>1. What is X\n2. What is Y\n\<close> is not JSON, and the fallback
  path gives \<open>What is X, What is Y\<close>.
\<close>

theorem fallback_parses_numbered_lines:
  "JSON_parse num (js ''1. What is X'' @ [LF] @ js ''2. What is Y'' @ [LF]) = None \<and>
   strict_parse num (JStr (js ''1. What is X'' @ [LF] @ js ''2. What is Y'' @ [LF])) = None \<and>
   fallback_questions (js ''1. What is X'' @ [LF] @ js ''2. What is Y'' @ [LF]) =
     [js ''What is X'', js ''What is Y''] \<and>
   parse_questions num (JStr (js ''1. What is X'' @ [LF] @ js ''2. What is Y'' @ [LF])) =
     Inr [js ''What is X'', js ''What is Y'']"
  by (simp add: parse_eval fallback_eval)

text \<open>
  C7, as amended. The split of the fallback path has a boundary at every line feed and at
  every comma, at a quoted-string boundary or not: no piece of the split and no question
  of the fallback path contains a comma or a line feed; and a text with neither is one
  piece.
\<close>

theorem split_at_every_comma_and_newline:
  "(\<forall>p \<in> set (split_sep s). COMMA \<notin> set p \<and> LF \<notin> set p) \<and>
   (COMMA \<notin> set s \<and> LF \<notin> set s \<longrightarrow> split_sep s = [s]) \<and>
   (\<forall>q \<in> set (fallback_questions s). COMMA \<notin> set q \<and> LF \<notin> set q)"
proof -
  have a: "COMMA \<notin> set p \<and> LF \<notin> set p" if "p \<in> set (split_sep t)" for p t
    using that unfolding split_sep_def using split_loop_pieces [of "[]" p t] by simp
  have b: "split_sep s = [s]" if "COMMA \<notin> set s \<and> LF \<notin> set s"
    using that unfolding split_sep_def using split_loop_whole [of s "[]"] by simp
  have c: "COMMA \<notin> set q \<and> LF \<notin> set q" if "q \<in> set (fallback_questions s)" for q
  proof -
    from that obtain p where p: "p \<in> set (split_sep (strip_both is_bracket_quote_space s))"
      and q: "q = clean_piece p"
      by (auto simp: fallback_questions_def set_array_from_set filter_Boolean_def)
    from a [OF p] q set_clean_piece [of p] show ?thesis by blast
  qed
  from a b c show ?thesis by blast
qed

theorem split_at_every_comma_and_newline_witness:
  "js ''What is X'' \<in> set (split_sep (js ''What is X, and why'')) \<and>
   COMMA \<notin> set (js ''What is X'') \<and> LF \<notin> set (js ''What is X'') \<and>
   split_sep (js ''What is X'') = [js ''What is X''] \<and>
   js ''and why'' \<in> set (fallback_questions (js ''What is X, and why'')) \<and>
   COMMA \<notin> set (js ''and why'') \<and> LF \<notin> set (js ''and why'')"
proof -
  have m1: "js ''What is X'' \<in> set (split_sep (js ''What is X, and why''))"
    by (simp add: fallback_eval)
  have m2: "js ''and why'' \<in> set (fallback_questions (js ''What is X, and why''))"
    by (simp add: fallback_eval)
  note t1 = split_at_every_comma_and_newline [of "js ''What is X, and why''"]
  note t2 = split_at_every_comma_and_newline [of "js ''What is X''"]
  from t1 m1 have c1: "COMMA \<notin> set (js ''What is X'') \<and> LF \<notin> set (js ''What is X'')" by blast
  from t1 m2 have c2: "COMMA \<notin> set (js ''and why'') \<and> LF \<notin> set (js ''and why'')" by blast
  from t2 c1 have c3: "split_sep (js ''What is X'') = [js ''What is X'']" by blast
  from m1 m2 c1 c2 c3 show ?thesis by blast
qed

text \<open>
  The claim as stated fails: the span \<open>What is X, and why\<close>, whose comma lies at no
  quoted-string boundary, is split in two.
\<close>

theorem fallback_splits_inner_comma:
  "split_sep (js ''What is X, and why'') = [js ''What is X'', js ''and why''] \<and>
   fallback_questions (js ''1. What is X, and why'' @ [LF] @ js ''2. What is Y'' @ [LF]) =
     [js ''What is X'', js ''and why'', js ''What is Y''] \<and>
   js ''What is X, and why'' \<notin>
     set (fallback_questions (js ''1. What is X, and why'' @ [LF] @ js ''2. What is Y'' @ [LF]))"
  by (simp add: fallback_eval)

text \<open>
  C8. A request leaves the store as it was or appends one document, and that document is
  finalized and has a non-empty list of questions, each of them non-empty with no white
  space at either end.
\<close>

theorem POST_inserts_finalized_nonempty_questions:
  "store (POST e req st) = st \<or>
   (\<exists>iv. store (POST e req st) = st @ [iv] \<and> iv_finalized iv \<and> iv_questions iv \<noteq> [] \<and>
      (\<forall>q \<in> set (iv_questions iv). q \<noteq> [] \<and> \<not> is_space (hd q) \<and> \<not> is_space (last q)))"
proof (cases "store (POST e req st) = st")
  case True
  then show ?thesis by simp
next
  case False
  with POST_store [of e req st] obtain f llm qs ts where
    p: "parse_questions (number_of_literal e) (extract_text llm) = Inr qs" and q: "qs \<noteq> []" and
    s: "store (POST e req st) = st @ [interview_of e f ts qs (fst (resolve_user e req (f_userid f)))]"
    by blast
  let ?iv = "interview_of e f ts qs (fst (resolve_user e req (f_userid f)))"
  have "iv_finalized ?iv" "iv_questions ?iv = qs" by (simp_all add: interview_of_def)
  moreover have "\<forall>q \<in> set qs. q \<noteq> [] \<and> \<not> is_space (hd q) \<and> \<not> is_space (last q)"
    using parse_questions_clean [OF p] by blast
  ultimately show ?thesis using s q by auto
qed

theorem POST_inserts_finalized_nonempty_questions_witness:
  "store (POST (example_env None (js ''[\"Q1\",\"Q2\"]'')) (example_request None None) []) =
     [] @ [example_interview [js ''Q1'', js ''Q2''] (JStr (js ''bob''))] \<and>
   store (POST (example_env None (js ''[\"Q1\",\"Q2\"]'')) (example_request None None) []) \<noteq> [] \<and>
   iv_finalized (example_interview [js ''Q1'', js ''Q2''] (JStr (js ''bob''))) \<and>
   iv_questions (example_interview [js ''Q1'', js ''Q2''] (JStr (js ''bob''))) \<noteq> [] \<and>
   js ''Q1'' \<in> set (iv_questions (example_interview [js ''Q1'', js ''Q2''] (JStr (js ''bob'')))) \<and>
   js ''Q1'' \<noteq> [] \<and> \<not> is_space (hd (js ''Q1'')) \<and> \<not> is_space (last (js ''Q1''))"
proof -
  let ?e = "example_env None (js ''[\"Q1\",\"Q2\"]'')"
  let ?r = "example_request None None"
  let ?iv = "example_interview [js ''Q1'', js ''Q2''] (JStr (js ''bob''))"
  have g: "store (POST ?e ?r []) = [] @ [?iv]"
    by (simp add: example_POST_200 [OF example_no_secret example_resolve_none example_questions])
  then have n: "store (POST ?e ?r []) \<noteq> []" by simp
  with POST_inserts_finalized_nonempty_questions [of ?e ?r "[]"] obtain iv where
    i: "store (POST ?e ?r []) = [] @ [iv]" "iv_finalized iv" "iv_questions iv \<noteq> []"
    "\<forall>q \<in> set (iv_questions iv). q \<noteq> [] \<and> \<not> is_space (hd q) \<and> \<not> is_space (last q)"
    by blast
  from i(1) g have e: "iv = ?iv" by simp
  have m: "js ''Q1'' \<in> set (iv_questions ?iv)" by (simp add: example_interview_def)
  from i(4) e m have "js ''Q1'' \<noteq> [] \<and> \<not> is_space (hd (js ''Q1'')) \<and> \<not> is_space (last (js ''Q1''))"
    by blast
  with g n i(2,3) e m show ?thesis by blast
qed

text \<open>
  C9. The claim is that a body without any of the six fields never makes the handler
  throw before the model call. The body \<open>null\<close> has none of them, and destructuring
  it on line 11, outside the \<open>try\<close> block, throws a TypeError: the handler rejects,
  for every environment and whatever the headers.
\<close>

theorem null_body_throws_before_try:
  "POST e (null_body_request x a) st =
     \<lparr>outcome = Threw (TypeError (js ''Cannot destructure property '' @ [SQUOTE] @ js ''type'' @
          [SQUOTE] @ js '' of '' @ [SQUOTE] @ js ''body'' @ [SQUOTE] @ js '' as it is null.'')),
      store = st, logs = []\<rparr>"
  by (simp add: POST_def destructure_def body_of_def null_body_request_def)

text \<open>
  C10. With \<open>VAPI_SECRET\<close> set to the empty string the shared-secret check rejects no
  request, whatever its header, and no response has status 401.
\<close>

theorem empty_secret_skips_check:
  assumes "VAPI_SECRET e = Some []"
  shows "\<not> secret_rejected e req \<and>
         (\<forall>r. outcome (POST e req st) = Responded r \<longrightarrow> status r \<noteq> 401)"
proof -
  from assms have n: "\<not> secret_rejected e req" by (simp add: secret_rejected_def)
  have "status r \<noteq> 401" if o: "outcome (POST e req st) = Responded r" for r
  proof (cases "destructure (body_of req)")
    case (Inl x)
    with o show ?thesis by (simp add: POST_def)
  next
    case (Inr f)
    obtain t st' l where t: "try_block e req f st = (t, st', l)"
      by (cases "try_block e req f st") auto
    show ?thesis
    proof (cases t)
      case (Inl err)
      with o Inr t have "r = response_500 err" by (simp add: POST_def)
      then show ?thesis by (simp add: response_500_def)
    next
      case (Inr r')
      with o \<open>destructure (body_of req) = Inr f\<close> t have "r = r'" by (simp add: POST_def)
      with try_block_status [of e req f st r' st' l] t Inr n
      show ?thesis by (auto simp: response_502_def response_200_def)
    qed
  qed
  with n show ?thesis by blast
qed

theorem empty_secret_skips_check_witness:
  "VAPI_SECRET (example_env (Some []) (js ''[\"Q1\",\"Q2\"]'')) = Some [] \<and>
   \<not> secret_rejected (example_env (Some []) (js ''[\"Q1\",\"Q2\"]'')) (example_request (Some (js ''wrong'')) None) \<and>
   outcome (POST (example_env (Some []) (js ''[\"Q1\",\"Q2\"]'')) (example_request (Some (js ''wrong'')) None) []) =
     Responded response_200 \<and>
   status response_200 \<noteq> 401"
proof -
  let ?e = "example_env (Some []) (js ''[\"Q1\",\"Q2\"]'')"
  let ?r = "example_request (Some (js ''wrong'')) None"
  have a: "VAPI_SECRET ?e = Some []" by (simp add: example_env_def)
  note t = empty_secret_skips_check [OF a, of ?r "[]"]
  then have n: "\<not> secret_rejected ?e ?r" by blast
  have o: "outcome (POST ?e ?r []) = Responded response_200"
    by (simp add: example_POST_200 [OF n example_resolve_none example_questions])
  with t have "status response_200 \<noteq> 401" by blast
  with a n o show ?thesis by blast
qed

end
